theory Spec2Isabelle
  imports Main
begin

section \<open>The connection manager of \<open>connection/connection.go\<close>\<close>

text \<open>
  The package wraps one \<open>*gorm.DB\<close> handle behind a \<open>sync.Once\<close> and remembers, by
  \<open>reflect.Type\<close>, which table models were already handed to gorm's migrator. gorm,
  \<open>database/sql\<close> and \<open>reflect\<close> are collaborators: what they return is a parameter of the
  model (the record \<open>env\<close>), and every call made to them is written to a trace, so that
  "how often" and "with what" are statements about the trace.

  Calls are modelled one after the other; \<open>sync.Once\<close> is its \<open>done\<close> flag.
\<close>

subsection \<open>Values\<close>

text \<open>
  \<open>ErrConnectionClosed = errors.New("db connection closed")\<close> is the only error the
  package creates. Every other error comes from a collaborator and is kept by its message.
\<close>

datatype error = ErrConnectionClosed | Foreign string

fun Error :: "error \<Rightarrow> string" where
  "Error ErrConnectionClosed = ''db connection closed''"
| "Error (Foreign msg) = msg"

text \<open>
  How a call ends: it returns, it panics (a nil dereference, or \<open>reflect\<close> on a zero
  Value), or \<open>log.Fatalf\<close> prints its message and exits the process.
\<close>

datatype 'a outcome = Returns 'a | Panic | Fatal string

text \<open>\<open>time.Duration\<close> counts nanoseconds.\<close>

type_synonym duration = int

definition time_Second :: duration where
  "time_Second = 1000000000"

text \<open>gorm's \<open>logger.LogLevel\<close>: \<open>Silent = iota + 1\<close>, then \<open>Error\<close>, \<open>Warn\<close>, \<open>Info\<close>.\<close>

datatype LogLevel = logger_Silent | logger_Error | logger_Warn | logger_Info

record logger_Config =
  SlowThreshold :: duration
  LogLevel :: LogLevel
  Colorful :: bool

datatype io_writer = os_Stdout | os_Stderr

text \<open>\<open>log.New(out, prefix, flag)\<close>; \<open>log.LstdFlags = Ldate | Ltime = 3\<close>.\<close>

record log_Logger =
  out :: io_writer
  prefix :: string
  flag :: nat

definition log_LstdFlags :: nat where
  "log_LstdFlags = 3"

text \<open>\<open>logger.New(writer, config)\<close>: the logger is the pair it was built from.\<close>

record gorm_logger =
  lg_writer :: log_Logger
  lg_config :: logger_Config

text \<open>A \<open>gorm.Dialector\<close> is known here by what \<open>Name()\<close> returns.\<close>

datatype dialector = Dialector (Name: string)

text \<open>
  Of \<open>gorm.Config\<close> the package touches two members: the \<open>Logger\<close> it sets in the default
  configuration, and the embedded \<open>Dialector\<close> interface, from which \<open>c.config.Name()\<close>
  is promoted. Both are nil in a zero \<open>gorm.Config\<close>.
\<close>

record config =
  cfg_Dialector :: "dialector option"
  cfg_Logger :: "gorm_logger option"

type_synonym gorm_DB = nat
type_synonym sql_DB = nat

text \<open>
  An \<open>interface{}\<close> value is nil, or a dynamic type with a value. \<open>reflect.Type\<close> is the
  dynamic type's identity.
\<close>

type_synonym rtype = string

datatype iface = NilIface | Iface rtype nat

text \<open>
  \<open>reflect.ValueOf(table).Type()\<close>: \<open>ValueOf(nil)\<close> is the zero Value, and \<open>Type\<close> panics
  on the zero Value.
\<close>

fun reflect_Type :: "iface \<Rightarrow> rtype outcome" where
  "reflect_Type NilIface = Panic"
| "reflect_Type (Iface t v) = Returns t"

subsection \<open>Collaborators and the trace of calls to them\<close>

text \<open>
  \<open>gorm_Open\<close> is \<open>gorm.Open(dialector, config)\<close>: a handle, an error, and the
  configuration as the call leaves it (it receives the manager's own pointer and may write
  through it). \<open>DB_of\<close> is \<open>(*gorm.DB).DB()\<close>. \<open>gorm_AutoMigrate\<close> is
  \<open>(*gorm.DB).AutoMigrate\<close>; besides the batch it sees the batches of the earlier calls,
  so the same batch may succeed once and fail later.
\<close>

record env =
  gorm_Open :: "dialector option \<Rightarrow> config option \<Rightarrow> gorm_DB option \<times> string option \<times> config option"
  DB_of :: "gorm_DB \<Rightarrow> sql_DB option \<times> string option"
  gorm_AutoMigrate :: "gorm_DB \<Rightarrow> iface list list \<Rightarrow> iface list \<Rightarrow> string option"

datatype pool_call = SetMaxIdleConns sql_DB int | SetMaxOpenConns sql_DB int

text \<open>
  \<open>database/sql\<close>: "If n <= 0, then there is no limit on the number of open connections."
\<close>

definition no_limit :: "int \<Rightarrow> bool" where
  "no_limit n = (n \<le> 0)"

subsection \<open>The manager\<close>

text \<open>The struct \<open>connectionManager\<close>. A key missing from \<open>migratedTables\<close> reads false.\<close>

record connectionManager =
  dialector :: "dialector option"
  config :: "config option"
  connStr :: string
  db :: "gorm_DB option"
  once :: bool
  migratedTables :: "rtype \<rightharpoonup> bool"

text \<open>
  The manager together with the trace: the arguments of every \<open>gorm.Open\<close>, the pool
  settings made, the batches handed to \<open>db.AutoMigrate\<close>, and the lines printed by
  \<open>log.Printf\<close>, each in call order.
\<close>

record system = connectionManager +
  open_calls :: "(dialector option \<times> config option) list"
  pool_calls :: "pool_call list"
  sync_calls :: "iface list list"
  log_output :: "string list"

definition migrated :: "system \<Rightarrow> rtype \<Rightarrow> bool" where
  "migrated c t = (case migratedTables c t of None \<Rightarrow> False | Some b \<Rightarrow> b)"

subsection \<open>GetConnection\<close>

text \<open>
  The closure \<open>execOnceOnlyFunc\<close>; the value returned beside the state is the closure's
  captured \<open>err\<close>. \<open>c.db.DB()\<close> dereferences \<open>c.db\<close> and \<open>sqlDB.SetMaxIdleConns\<close>
  dereferences \<open>sqlDB\<close>: on nil they panic.
\<close>

definition execOnceOnlyFunc :: "env \<Rightarrow> system \<Rightarrow> system \<times> error option outcome" where
  "execOnceOnlyFunc e c =
     (case gorm_Open e (dialector c) (config c) of (h, err, cfg) \<Rightarrow>
        let c1 = c\<lparr>db := h, config := cfg,
                   open_calls := open_calls c @ [(dialector c, config c)]\<rparr>
        in (case err of
              Some msg \<Rightarrow> (c1, Returns (Some (Foreign msg)))
            | None \<Rightarrow>
                (case h of
                   None \<Rightarrow> (c1, Panic)
                 | Some d \<Rightarrow>
                     (case DB_of e d of (sqlDB, err2) \<Rightarrow>
                        (case err2 of
                           Some msg \<Rightarrow> (c1, Returns (Some (Foreign msg)))
                         | None \<Rightarrow>
                             (case sqlDB of
                                None \<Rightarrow> (c1, Panic)
                              | Some q \<Rightarrow>
                                  (c1\<lparr>pool_calls := pool_calls c1 @
                                        [SetMaxIdleConns q 10, SetMaxOpenConns q (- 1)]\<rparr>,
                                   Returns None)))))))"

text \<open>
  \<open>var err error\<close> is a fresh nil at every call; only the closure assigns it, and
  \<open>c.once.Do\<close> runs the closure when the flag is unset, setting the flag when the closure
  is left (also by a panic).
\<close>

definition GetConnection :: "env \<Rightarrow> system \<Rightarrow> system \<times> (gorm_DB option \<times> error option) outcome" where
  "GetConnection e c =
     (if once c then (c, Returns (db c, None))
      else (case execOnceOnlyFunc e c of (c1, r) \<Rightarrow>
              let c2 = c1\<lparr>once := True\<rparr>
              in (case r of
                    Returns err \<Rightarrow> (c2, Returns (db c2, err))
                  | Panic \<Rightarrow> (c2, Panic)
                  | Fatal msg \<Rightarrow> (c2, Fatal msg))))"

subsection \<open>AutoMigrate\<close>

text \<open>
  The \<open>for ... range tables\<close> loop, with \<open>unmigratedTables\<close> as accumulator. A panic leaves
  the marks made so far in the map.
\<close>

fun migrate_loop :: "system \<Rightarrow> iface list \<Rightarrow> iface list \<Rightarrow> system \<times> iface list outcome" where
  "migrate_loop c unmigratedTables [] = (c, Returns unmigratedTables)"
| "migrate_loop c unmigratedTables (table # tables) =
     (case reflect_Type table of
        Panic \<Rightarrow> (c, Panic)
      | Fatal msg \<Rightarrow> (c, Fatal msg)
      | Returns t \<Rightarrow>
          (if \<not> migrated c t
           then migrate_loop (c\<lparr>migratedTables := (migratedTables c)(t \<mapsto> True)\<rparr>)
                  (unmigratedTables @ [table]) tables
           else migrate_loop c unmigratedTables tables))"

definition AutoMigrate :: "env \<Rightarrow> system \<Rightarrow> iface list \<Rightarrow> system \<times> error option outcome" where
  "AutoMigrate e c tables =
     (case db c of
        None \<Rightarrow> (c, Returns (Some ErrConnectionClosed))
      | Some d \<Rightarrow>
          (case migrate_loop c [] tables of (c1, r) \<Rightarrow>
             (case r of
                Panic \<Rightarrow> (c1, Panic)
              | Fatal msg \<Rightarrow> (c1, Fatal msg)
              | Returns unmigratedTables \<Rightarrow>
                  (c1\<lparr>sync_calls := sync_calls c1 @ [unmigratedTables]\<rparr>,
                   Returns (map_option Foreign
                     (gorm_AutoMigrate e d (sync_calls c1) unmigratedTables))))))"

text \<open>\<open>log.Printf("%v\n", err)\<close> prints the error's message and a newline.\<close>

definition AutoMigrateOrWarn :: "env \<Rightarrow> system \<Rightarrow> iface list \<Rightarrow> system \<times> unit outcome" where
  "AutoMigrateOrWarn e c tables =
     (case AutoMigrate e c tables of (c1, r) \<Rightarrow>
        (case r of
           Panic \<Rightarrow> (c1, Panic)
         | Fatal msg \<Rightarrow> (c1, Fatal msg)
         | Returns None \<Rightarrow> (c1, Returns ())
         | Returns (Some err) \<Rightarrow>
             (c1\<lparr>log_output := log_output c1 @ [Error err @ [CHR 0x0A]]\<rparr>, Returns ())))"

subsection \<open>Dialect and ConnString\<close>

text \<open>
  \<open>c.config.Name()\<close> is the \<open>Name\<close> of the \<open>Dialector\<close> embedded in \<open>*c.config\<close>; through
  a nil pointer or a nil interface the call panics.
\<close>

definition Dialect :: "system \<Rightarrow> string outcome" where
  "Dialect c =
     (case config c of
        None \<Rightarrow> Panic
      | Some cfg \<Rightarrow>
          (case cfg_Dialector cfg of
             None \<Rightarrow> Panic
           | Some d \<Rightarrow> Returns (Name d)))"

definition ConnString :: "system \<Rightarrow> string" where
  "ConnString c = connStr c"

subsection \<open>Construction\<close>

definition defaultLogger :: gorm_logger where
  "defaultLogger =
     \<lparr>lg_writer = \<lparr>out = os_Stdout, prefix = [CHR 0x0D, CHR 0x0A], flag = log_LstdFlags\<rparr>,
      lg_config = \<lparr>SlowThreshold = time_Second, LogLevel = logger_Error, Colorful = True\<rparr>\<rparr>"

text \<open>The struct literal of the constructor, with an empty trace.\<close>

definition new_connMan :: "string \<Rightarrow> dialector option \<Rightarrow> config option \<Rightarrow> system" where
  "new_connMan cs dl cfg =
     \<lparr>dialector = dl, config = cfg, connStr = cs, db = None, once = False,
      migratedTables = Map.empty,
      open_calls = [], pool_calls = [], sync_calls = [], log_output = []\<rparr>"

text \<open>The \<open>if connMan.config == nil\<close> block.\<close>

definition with_default_config :: "system \<Rightarrow> system" where
  "with_default_config c =
     (if config c = None
      then c\<lparr>config := Some \<lparr>cfg_Dialector = None, cfg_Logger = Some defaultLogger\<rparr>\<rparr>
      else c)"

definition NewBaseConnectionManager ::
  "env \<Rightarrow> string \<Rightarrow> dialector option \<Rightarrow> config option \<Rightarrow> system \<times> error option outcome" where
  "NewBaseConnectionManager e cs dl cfg =
     (case GetConnection e (with_default_config (new_connMan cs dl cfg)) of (connMan, r) \<Rightarrow>
        (case r of
           Returns (h, err) \<Rightarrow> (connMan, Returns err)
         | Panic \<Rightarrow> (connMan, Panic)
         | Fatal msg \<Rightarrow> (connMan, Fatal msg)))"

definition MustNewBaseConnectionManager ::
  "env \<Rightarrow> string \<Rightarrow> dialector option \<Rightarrow> config option \<Rightarrow> system \<times> unit outcome" where
  "MustNewBaseConnectionManager e cs dl cfg =
     (case NewBaseConnectionManager e cs dl cfg of (connMan, r) \<Rightarrow>
        (case r of
           Returns None \<Rightarrow> (connMan, Returns ())
         | Returns (Some err) \<Rightarrow>
             (connMan, Fatal (''failed to connect to database: '' @ Error err))
         | Panic \<Rightarrow> (connMan, Panic)
         | Fatal msg \<Rightarrow> (connMan, Fatal msg)))"

subsection \<open>Sequences of calls on one manager\<close>

text \<open>
  The interface \<open>Manager\<close>, one constructor per method. A sequence of calls goes on after a
  panic, as it does for a caller that recovers; a run that stops at the panic is a prefix.
\<close>

datatype op =
    OpGetConnection
  | OpAutoMigrate "iface list"
  | OpAutoMigrateOrWarn "iface list"
  | OpDialect
  | OpConnString

datatype result =
    RConn "gorm_DB option" "error option"
  | RErr "error option"
  | RUnit
  | RStr string

fun step :: "env \<Rightarrow> system \<Rightarrow> op \<Rightarrow> system \<times> result outcome" where
  "step e c OpGetConnection =
     (case GetConnection e c of (c1, r) \<Rightarrow> (c1, map_outcome (\<lambda>(h, err). RConn h err) r))"
| "step e c (OpAutoMigrate tables) =
     (case AutoMigrate e c tables of (c1, r) \<Rightarrow> (c1, map_outcome RErr r))"
| "step e c (OpAutoMigrateOrWarn tables) =
     (case AutoMigrateOrWarn e c tables of (c1, r) \<Rightarrow> (c1, map_outcome (\<lambda>u. RUnit) r))"
| "step e c OpDialect = (c, map_outcome RStr (Dialect c))"
| "step e c OpConnString = (c, Returns (RStr (ConnString c)))"

fun run :: "env \<Rightarrow> system \<Rightarrow> op list \<Rightarrow> system" where
  "run e c [] = c"
| "run e c (p # ps) = run e (fst (step e c p)) ps"

fun outputs :: "env \<Rightarrow> system \<Rightarrow> op list \<Rightarrow> result outcome list" where
  "outputs e c [] = []"
| "outputs e c (p # ps) = snd (step e c p) # outputs e (fst (step e c p)) ps"

subsection \<open>Example collaborators\<close>

text \<open>
  Four behaviours of the collaborators, used to run the manager on concrete inputs:
  an open that fails and returns no handle; an open that succeeds and stores the dialector
  in the configuration it was given; an open that succeeds and leaves that configuration
  as it was; and the latter with a migrator that always fails.
\<close>

definition env_fail :: env where
  "env_fail =
     \<lparr>gorm_Open = (\<lambda>dl cfg. (None, Some ''dial tcp: connection refused'', cfg)),
      DB_of = (\<lambda>d. (Some d, None)),
      gorm_AutoMigrate = (\<lambda>d past b. None)\<rparr>"

definition env_ok :: env where
  "env_ok =
     \<lparr>gorm_Open = (\<lambda>dl cfg. (Some 1, None,
        (case dl of None \<Rightarrow> cfg
         | Some d \<Rightarrow> map_option (\<lambda>g. g\<lparr>cfg_Dialector := Some d\<rparr>) cfg))),
      DB_of = (\<lambda>d. (Some 7, None)),
      gorm_AutoMigrate = (\<lambda>d past b. None)\<rparr>"

definition env_copy :: env where
  "env_copy =
     \<lparr>gorm_Open = (\<lambda>dl cfg. (Some 1, None, cfg)),
      DB_of = (\<lambda>d. (Some 7, None)),
      gorm_AutoMigrate = (\<lambda>d past b. None)\<rparr>"

definition env_sync_fail :: env where
  "env_sync_fail =
     \<lparr>gorm_Open = (\<lambda>dl cfg. (Some 1, None, cfg)),
      DB_of = (\<lambda>d. (Some 7, None)),
      gorm_AutoMigrate = (\<lambda>d past b. Some ''ERROR: permission denied for schema public'')\<rparr>"

definition postgres :: "dialector option" where
  "postgres = Some (Dialector ''postgres'')"

section \<open>Facts about the operations\<close>

lemmas ctor_defs = NewBaseConnectionManager_def GetConnection_def execOnceOnlyFunc_def
  with_default_config_def new_connMan_def Let_def

lemma GetConnection_done: "once c \<Longrightarrow> GetConnection e c = (c, Returns (db c, None))"
  by (simp add: GetConnection_def)

lemma execOnceOnlyFunc_open_calls:
  "open_calls (fst (execOnceOnlyFunc e c)) = open_calls c @ [(dialector c, config c)]"
  by (simp add: execOnceOnlyFunc_def Let_def split: prod.splits option.splits)

lemma execOnceOnlyFunc_db:
  "db (fst (execOnceOnlyFunc e c)) = fst (gorm_Open e (dialector c) (config c))"
  by (simp add: execOnceOnlyFunc_def Let_def split: prod.splits option.splits)

lemma execOnceOnlyFunc_keeps:
  "migratedTables (fst (execOnceOnlyFunc e c)) = migratedTables c"
  "sync_calls (fst (execOnceOnlyFunc e c)) = sync_calls c"
  "connStr (fst (execOnceOnlyFunc e c)) = connStr c"
  "dialector (fst (execOnceOnlyFunc e c)) = dialector c"
  "log_output (fst (execOnceOnlyFunc e c)) = log_output c"
  by (simp_all add: execOnceOnlyFunc_def Let_def split: prod.splits option.splits)

lemma fst_GetConnection:
  "fst (GetConnection e c) = (if once c then c else (fst (execOnceOnlyFunc e c))\<lparr>once := True\<rparr>)"
  by (cases "execOnceOnlyFunc e c") (simp add: GetConnection_def Let_def split: outcome.splits)

lemma GetConnection_sets_once: "once (fst (GetConnection e c))"
  by (simp add: fst_GetConnection)

lemma GetConnection_keeps:
  "migratedTables (fst (GetConnection e c)) = migratedTables c"
  "sync_calls (fst (GetConnection e c)) = sync_calls c"
  "connStr (fst (GetConnection e c)) = connStr c"
  "dialector (fst (GetConnection e c)) = dialector c"
  "log_output (fst (GetConnection e c)) = log_output c"
  by (simp_all add: fst_GetConnection execOnceOnlyFunc_keeps)

lemma GetConnection_fresh_open_calls:
  "\<not> once c \<Longrightarrow> open_calls (fst (GetConnection e c)) = open_calls c @ [(dialector c, config c)]"
  by (simp add: fst_GetConnection execOnceOnlyFunc_open_calls)

lemma migrate_loop_frame:
  "fst (migrate_loop c acc ts) = c\<lparr>migratedTables := migratedTables (fst (migrate_loop c acc ts))\<rparr>"
  by (induction c acc ts rule: migrate_loop.induct) (auto split: outcome.splits)

lemma migrate_loop_mono:
  "migrated c t \<Longrightarrow> migrated (fst (migrate_loop c acc ts)) t"
  by (induction c acc ts rule: migrate_loop.induct) (auto simp: migrated_def split: outcome.splits)

lemma migrate_loop_entry:
  "migratedTables (fst (migrate_loop c acc ts)) t = migratedTables c t \<or>
   migratedTables (fst (migrate_loop c acc ts)) t = Some True"
  by (induction c acc ts rule: migrate_loop.induct) (auto split: outcome.splits if_splits)

lemma migrate_loop_dom:
  "migratedTables c t \<noteq> None \<Longrightarrow> migratedTables (fst (migrate_loop c acc ts)) t \<noteq> None"
  using migrate_loop_entry[of c acc ts t] by auto

lemma migrated_mark: "migrated (c\<lparr>migratedTables := (migratedTables c)(t \<mapsto> True)\<rparr>) u = (u = t \<or> migrated c u)"
  by (simp add: migrated_def)

lemma migrate_loop_batch:
  "migrate_loop c acc ts = (c', Returns b) \<Longrightarrow>
     \<exists>b'. b = acc @ b' \<and> set b' \<subseteq> set ts \<and> (\<forall>x\<in>set b'. \<exists>t v. x = Iface t v \<and> \<not> migrated c t)"
proof (induction c acc ts arbitrary: c' b rule: migrate_loop.induct)
  case (1 c acc)
  then show ?case by simp
next
  case (2 c acc table tables)
  show ?case
  proof (cases table)
    case NilIface
    with 2(3) show ?thesis by simp
  next
    case (Iface t v)
    show ?thesis
    proof (cases "migrated c t")
      case True
      with 2(3) Iface have "migrate_loop c acc tables = (c', Returns b)" by simp
      from 2(2)[OF _ _ this] Iface True show ?thesis by auto
    next
      case False
      with 2(3) Iface have
        "migrate_loop (c\<lparr>migratedTables := (migratedTables c)(t \<mapsto> True)\<rparr>) (acc @ [table]) tables = (c', Returns b)"
        by simp
      from 2(1)[OF _ _ this] Iface False obtain b' where
        b: "b = (acc @ [table]) @ b'" "set b' \<subseteq> set tables"
        "\<forall>x\<in>set b'. \<exists>t' v'. x = Iface t' v' \<and> \<not> migrated (c\<lparr>migratedTables := (migratedTables c)(t \<mapsto> True)\<rparr>) t'"
        by auto
      have "\<forall>x\<in>set ([table] @ b'). \<exists>t' v'. x = Iface t' v' \<and> \<not> migrated c t'"
        using b(3) Iface False by (auto simp: migrated_mark)
      moreover have "b = acc @ ([table] @ b')" using b(1) by simp
      moreover have "set ([table] @ b') \<subseteq> set (table # tables)" using b(2) by auto
      ultimately show ?thesis by blast
    qed
  qed
qed

lemma migrate_loop_marks:
  "migrate_loop c acc ts = (c', Returns b) \<Longrightarrow> x \<in> set ts \<Longrightarrow> \<exists>t v. x = Iface t v \<and> migrated c' t"
proof (induction c acc ts arbitrary: c' b rule: migrate_loop.induct)
  case (1 c acc)
  then show ?case by simp
next
  case (2 c acc table tables)
  show ?case
  proof (cases table)
    case NilIface
    with 2(3) show ?thesis by simp
  next
    case (Iface t v)
    show ?thesis
    proof (cases "migrated c t")
      case True
      with 2(3) Iface have run: "migrate_loop c acc tables = (c', Returns b)" by simp
      show ?thesis
      proof (cases "x = table")
        case xt: True
        have "migrated (fst (migrate_loop c acc tables)) t" using True by (rule migrate_loop_mono)
        with run xt Iface show ?thesis by simp
      next
        case False
        with 2(4) have "x \<in> set tables" by simp
        from 2(2)[OF _ _ run this] Iface True show ?thesis by simp
      qed
    next
      case False
      let ?c1 = "c\<lparr>migratedTables := (migratedTables c)(t \<mapsto> True)\<rparr>"
      from False 2(3) Iface have run: "migrate_loop ?c1 (acc @ [table]) tables = (c', Returns b)"
        by simp
      show ?thesis
      proof (cases "x = table")
        case xt: True
        have "migrated ?c1 t" by (simp add: migrated_mark)
        then have "migrated (fst (migrate_loop ?c1 (acc @ [table]) tables)) t" by (rule migrate_loop_mono)
        with run xt Iface show ?thesis by simp
      next
        case xf: False
        with 2(4) have "x \<in> set tables" by simp
        from 2(1)[OF _ _ run this] Iface False show ?thesis by simp
      qed
    qed
  qed
qed

lemma migrate_loop_complete:
  "migrate_loop c acc ts = (c', Returns b) \<Longrightarrow> Iface t v \<in> set ts \<Longrightarrow> \<not> migrated c t \<Longrightarrow>
     \<exists>v'. Iface t v' \<in> set (drop (length acc) b)"
proof (induction c acc ts arbitrary: c' b rule: migrate_loop.induct)
  case (1 c acc)
  then show ?case by simp
next
  case (2 c acc table tables)
  show ?case
  proof (cases table)
    case NilIface
    with 2(3) show ?thesis by simp
  next
    case (Iface t0 v0)
    show ?thesis
    proof (cases "migrated c t0")
      case True
      with 2(3) Iface have run: "migrate_loop c acc tables = (c', Returns b)" by simp
      from True 2(5) have "t \<noteq> t0" by auto
      with 2(4) Iface have "Iface t v \<in> set tables" by simp
      from 2(2)[OF _ _ run this 2(5)] Iface True show ?thesis by simp
    next
      case False
      let ?c1 = "c\<lparr>migratedTables := (migratedTables c)(t0 \<mapsto> True)\<rparr>"
      from False 2(3) Iface have run: "migrate_loop ?c1 (acc @ [table]) tables = (c', Returns b)"
        by simp
      from migrate_loop_batch[OF run] obtain b' where b: "b = (acc @ [table]) @ b'" by blast
      show ?thesis
      proof (cases "t = t0")
        case True
        with b Iface show ?thesis by auto
      next
        case tf: False
        with 2(4) Iface have mem: "Iface t v \<in> set tables" by simp
        from tf 2(5) have "\<not> migrated ?c1 t" by (simp add: migrated_mark)
        from 2(1)[OF _ _ run mem this] Iface False obtain v' where
          "Iface t v' \<in> set (drop (length (acc @ [table])) b)" by auto
        then have "Iface t v' \<in> set (drop (length acc) b)" using b by auto
        then show ?thesis by blast
      qed
    qed
  qed
qed

lemma reflect_Type_no_Fatal [simp]: "reflect_Type x \<noteq> Fatal msg"
  by (cases x) simp_all

lemma migrate_loop_nil:
  "NilIface \<in> set ts \<Longrightarrow> snd (migrate_loop c acc ts) = Panic"
  by (induction c acc ts rule: migrate_loop.induct) (auto split: outcome.splits)

lemma migrate_loop_no_Fatal: "snd (migrate_loop c acc ts) \<noteq> Fatal msg"
  by (induction c acc ts rule: migrate_loop.induct) (auto split: outcome.splits)

lemma migrate_loop_shape:
  obtains M where "fst (migrate_loop c acc ts) = c\<lparr>migratedTables := M\<rparr>"
  using migrate_loop_frame by blast

lemma AutoMigrate_shape:
  obtains M S where "fst (AutoMigrate e c ts) = c\<lparr>migratedTables := M, sync_calls := S\<rparr>"
proof (cases "db c")
  case None
  then have "fst (AutoMigrate e c ts) = c\<lparr>migratedTables := migratedTables c, sync_calls := sync_calls c\<rparr>"
    by (simp add: AutoMigrate_def)
  then show ?thesis by (rule that)
next
  case (Some d)
  obtain M where M: "fst (migrate_loop c [] ts) = c\<lparr>migratedTables := M\<rparr>"
    by (rule migrate_loop_shape)
  obtain c1 r where cr: "migrate_loop c [] ts = (c1, r)" by (cases "migrate_loop c [] ts")
  with M have c1: "c1 = c\<lparr>migratedTables := M\<rparr>" by simp
  show ?thesis
  proof (cases r)
    case (Returns b)
    with Some cr c1 have "fst (AutoMigrate e c ts) = c\<lparr>migratedTables := M, sync_calls := sync_calls c @ [b]\<rparr>"
      by (simp add: AutoMigrate_def)
    then show ?thesis by (rule that)
  next
    case Panic
    with Some cr c1 have "fst (AutoMigrate e c ts) = c\<lparr>migratedTables := M, sync_calls := sync_calls c\<rparr>"
      by (simp add: AutoMigrate_def)
    then show ?thesis by (rule that)
  next
    case (Fatal msg)
    with Some cr c1 have "fst (AutoMigrate e c ts) = c\<lparr>migratedTables := M, sync_calls := sync_calls c\<rparr>"
      by (simp add: AutoMigrate_def)
    then show ?thesis by (rule that)
  qed
qed

lemma AutoMigrateOrWarn_state:
  "fst (AutoMigrateOrWarn e c ts) = fst (AutoMigrate e c ts) \<or>
   (\<exists>L. fst (AutoMigrateOrWarn e c ts) = (fst (AutoMigrate e c ts))\<lparr>log_output := L\<rparr>)"
  by (cases "AutoMigrate e c ts") (auto simp: AutoMigrateOrWarn_def split: outcome.splits option.splits)

lemma AutoMigrateOrWarn_shape:
  obtains M S L where
    "fst (AutoMigrateOrWarn e c ts) = c\<lparr>migratedTables := M, sync_calls := S, log_output := L\<rparr>"
proof -
  obtain M S where MS: "fst (AutoMigrate e c ts) = c\<lparr>migratedTables := M, sync_calls := S\<rparr>"
    by (rule AutoMigrate_shape)
  from AutoMigrateOrWarn_state[of e c ts] show ?thesis
  proof
    assume "fst (AutoMigrateOrWarn e c ts) = fst (AutoMigrate e c ts)"
    with MS have "fst (AutoMigrateOrWarn e c ts) = c\<lparr>migratedTables := M, sync_calls := S, log_output := log_output c\<rparr>"
      by simp
    then show ?thesis by (rule that)
  next
    assume "\<exists>L. fst (AutoMigrateOrWarn e c ts) = (fst (AutoMigrate e c ts))\<lparr>log_output := L\<rparr>"
    then obtain L where "fst (AutoMigrateOrWarn e c ts) = (fst (AutoMigrate e c ts))\<lparr>log_output := L\<rparr>" ..
    with MS have "fst (AutoMigrateOrWarn e c ts) = c\<lparr>migratedTables := M, sync_calls := S, log_output := L\<rparr>"
      by simp
    then show ?thesis by (rule that)
  qed
qed

lemma step_shape:
  assumes "once c"
  obtains M S L where "fst (step e c p) = c\<lparr>migratedTables := M, sync_calls := S, log_output := L\<rparr>"
proof (cases p)
  case OpGetConnection
  with assms have "fst (step e c p) = c\<lparr>migratedTables := migratedTables c, sync_calls := sync_calls c, log_output := log_output c\<rparr>"
    by (simp add: GetConnection_done)
  then show ?thesis by (rule that)
next
  case (OpAutoMigrate ts)
  obtain M S where "fst (AutoMigrate e c ts) = c\<lparr>migratedTables := M, sync_calls := S\<rparr>"
    by (rule AutoMigrate_shape)
  with OpAutoMigrate have "fst (step e c p) = c\<lparr>migratedTables := M, sync_calls := S, log_output := log_output c\<rparr>"
    by (simp add: split_beta)
  then show ?thesis by (rule that)
next
  case (OpAutoMigrateOrWarn ts)
  obtain M S L where "fst (AutoMigrateOrWarn e c ts) = c\<lparr>migratedTables := M, sync_calls := S, log_output := L\<rparr>"
    by (rule AutoMigrateOrWarn_shape)
  with OpAutoMigrateOrWarn have "fst (step e c p) = c\<lparr>migratedTables := M, sync_calls := S, log_output := L\<rparr>"
    by (simp add: split_beta)
  then show ?thesis by (rule that)
next
  case OpDialect
  then have "fst (step e c p) = c\<lparr>migratedTables := migratedTables c, sync_calls := sync_calls c, log_output := log_output c\<rparr>"
    by simp
  then show ?thesis by (rule that)
next
  case OpConnString
  then have "fst (step e c p) = c\<lparr>migratedTables := migratedTables c, sync_calls := sync_calls c, log_output := log_output c\<rparr>"
    by simp
  then show ?thesis by (rule that)
qed

lemma run_shape:
  "once c \<Longrightarrow> \<exists>M S L. run e c ops = c\<lparr>migratedTables := M, sync_calls := S, log_output := L\<rparr>"
proof (induction ops arbitrary: c)
  case Nil
  have "run e c [] = c\<lparr>migratedTables := migratedTables c, sync_calls := sync_calls c, log_output := log_output c\<rparr>"
    by simp
  then show ?case by blast
next
  case (Cons p ops)
  obtain M S L where st: "fst (step e c p) = c\<lparr>migratedTables := M, sync_calls := S, log_output := L\<rparr>"
    using Cons.prems by (rule step_shape)
  then have "once (fst (step e c p))" using Cons.prems by simp
  from Cons.IH[OF this] obtain M' S' L' where
    "run e (fst (step e c p)) ops = (fst (step e c p))\<lparr>migratedTables := M', sync_calls := S', log_output := L'\<rparr>"
    by blast
  with st have "run e c (p # ops) = c\<lparr>migratedTables := M', sync_calls := S', log_output := L'\<rparr>"
    by simp
  then show ?case by blast
qed

lemma run_keeps:
  assumes "once c"
  shows "db (run e c ops) = db c" "open_calls (run e c ops) = open_calls c"
    "pool_calls (run e c ops) = pool_calls c" "config (run e c ops) = config c"
    "connStr (run e c ops) = connStr c" "dialector (run e c ops) = dialector c"
    "once (run e c ops)"
proof -
  from run_shape[OF assms, of e ops] obtain M S L where
    r: "run e c ops = c\<lparr>migratedTables := M, sync_calls := S, log_output := L\<rparr>" by blast
  show "db (run e c ops) = db c" "open_calls (run e c ops) = open_calls c"
    "pool_calls (run e c ops) = pool_calls c" "config (run e c ops) = config c"
    "connStr (run e c ops) = connStr c" "dialector (run e c ops) = dialector c"
    "once (run e c ops)"
    using assms by (simp_all add: r)
qed

lemma outputs_length: "length (outputs e c ops) = length ops"
  by (induction ops arbitrary: c) simp_all

lemma outputs_GetConnection:
  "once c \<Longrightarrow> i < length ops \<Longrightarrow> ops ! i = OpGetConnection \<Longrightarrow>
     outputs e c ops ! i = Returns (RConn (db c) None)"
proof (induction ops arbitrary: c i)
  case Nil
  then show ?case by simp
next
  case (Cons p ops)
  obtain M S L where st: "fst (step e c p) = c\<lparr>migratedTables := M, sync_calls := S, log_output := L\<rparr>"
    using Cons.prems(1) by (rule step_shape)
  then have o: "once (fst (step e c p))" and d: "db (fst (step e c p)) = db c"
    using Cons.prems(1) by simp_all
  show ?case
  proof (cases i)
    case 0
    with Cons.prems show ?thesis by (simp add: GetConnection_done)
  next
    case (Suc j)
    with Cons.prems have "j < length ops" "ops ! j = OpGetConnection" by simp_all
    from Cons.IH[OF o this] d Suc show ?thesis by simp
  qed
qed

lemma NewBase_state:
  "fst (NewBaseConnectionManager e cs dl cfg) =
     fst (GetConnection e (with_default_config (new_connMan cs dl cfg)))"
  by (cases "GetConnection e (with_default_config (new_connMan cs dl cfg))")
     (simp add: NewBaseConnectionManager_def split: outcome.splits prod.splits)

lemma fresh_not_once: "\<not> once (with_default_config (new_connMan cs dl cfg))"
  "open_calls (with_default_config (new_connMan cs dl cfg)) = []"
  "dialector (with_default_config (new_connMan cs dl cfg)) = dl"
  "connStr (with_default_config (new_connMan cs dl cfg)) = cs"
  by (simp_all add: with_default_config_def new_connMan_def)

lemma NewBase_once: "once (fst (NewBaseConnectionManager e cs dl cfg))"
  by (simp add: NewBase_state GetConnection_sets_once)

lemma NewBase_open_calls:
  "open_calls (fst (NewBaseConnectionManager e cs dl cfg)) =
     [(dl, config (with_default_config (new_connMan cs dl cfg)))]"
  by (simp add: NewBase_state GetConnection_fresh_open_calls fresh_not_once)

lemma GetConnection_handle:
  "snd (GetConnection e c) = Returns (h, err) \<Longrightarrow> h = db (fst (GetConnection e c))"
  by (cases "execOnceOnlyFunc e c")
     (auto simp: GetConnection_def Let_def split: if_splits outcome.splits)

lemma execOnceOnlyFunc_no_Fatal: "snd (execOnceOnlyFunc e c) \<noteq> Fatal msg"
  by (simp add: execOnceOnlyFunc_def Let_def split: prod.splits option.splits)

lemma execOnceOnlyFunc_pool:
  "pool_calls (fst (execOnceOnlyFunc e c)) =
     (case snd (execOnceOnlyFunc e c) of
        Returns None \<Rightarrow> pool_calls c @
          [SetMaxIdleConns (the (fst (DB_of e (the (fst (gorm_Open e (dialector c) (config c))))))) 10,
           SetMaxOpenConns (the (fst (DB_of e (the (fst (gorm_Open e (dialector c) (config c))))))) (- 1)]
      | _ \<Rightarrow> pool_calls c)"
  by (simp add: execOnceOnlyFunc_def Let_def split: prod.splits option.splits)

lemma exec_open_error:
  "gorm_Open e (dialector c) (config c) = (h, Some msg, g) \<Longrightarrow>
     execOnceOnlyFunc e c =
       (c\<lparr>db := h, config := g, open_calls := open_calls c @ [(dialector c, config c)]\<rparr>,
        Returns (Some (Foreign msg)))"
  by (simp add: execOnceOnlyFunc_def)

lemma exec_DB_error:
  "gorm_Open e (dialector c) (config c) = (Some d, None, g) \<Longrightarrow> DB_of e d = (q, Some msg) \<Longrightarrow>
     execOnceOnlyFunc e c =
       (c\<lparr>db := Some d, config := g, open_calls := open_calls c @ [(dialector c, config c)]\<rparr>,
        Returns (Some (Foreign msg)))"
  by (simp add: execOnceOnlyFunc_def)

lemma exec_ok:
  "gorm_Open e (dialector c) (config c) = (Some d, None, g) \<Longrightarrow> DB_of e d = (Some q, None) \<Longrightarrow>
     execOnceOnlyFunc e c =
       (c\<lparr>db := Some d, config := g, open_calls := open_calls c @ [(dialector c, config c)],
          pool_calls := pool_calls c @ [SetMaxIdleConns q 10, SetMaxOpenConns q (- 1)]\<rparr>,
        Returns None)"
  by (simp add: execOnceOnlyFunc_def)

lemma exec_pool_only_ok:
  "snd (execOnceOnlyFunc e c) \<noteq> Returns None \<Longrightarrow> pool_calls (fst (execOnceOnlyFunc e c)) = pool_calls c"
  by (auto simp: execOnceOnlyFunc_def Let_def split: prod.splits option.splits)

lemma execOnceOnlyFunc_config:
  "config (fst (execOnceOnlyFunc e c)) = snd (snd (gorm_Open e (dialector c) (config c)))"
  by (simp add: execOnceOnlyFunc_def Let_def split: prod.splits option.splits)

lemma snd_GetConnection_fresh:
  "\<not> once c \<Longrightarrow> snd (GetConnection e c) =
     map_outcome (\<lambda>err. (db (fst (execOnceOnlyFunc e c)), err)) (snd (execOnceOnlyFunc e c))"
  by (cases "execOnceOnlyFunc e c") (simp add: GetConnection_def Let_def split: outcome.splits)

lemma snd_NewBase:
  "snd (NewBaseConnectionManager e cs dl cfg) =
     map_outcome snd (snd (GetConnection e (with_default_config (new_connMan cs dl cfg))))"
  by (cases "GetConnection e (with_default_config (new_connMan cs dl cfg))")
     (simp add: NewBaseConnectionManager_def split: outcome.splits prod.splits)

lemma snd_NewBase_exec:
  "snd (NewBaseConnectionManager e cs dl cfg) =
     snd (execOnceOnlyFunc e (with_default_config (new_connMan cs dl cfg)))"
  by (simp add: snd_NewBase snd_GetConnection_fresh fresh_not_once outcome.map_comp comp_def outcome.map_ident)

lemma fst_Must: "fst (MustNewBaseConnectionManager e cs dl cfg) = fst (NewBaseConnectionManager e cs dl cfg)"
  by (cases "NewBaseConnectionManager e cs dl cfg")
     (simp add: MustNewBaseConnectionManager_def split: outcome.splits option.splits)

lemma snd_Must:
  "snd (MustNewBaseConnectionManager e cs dl cfg) =
     (case snd (NewBaseConnectionManager e cs dl cfg) of
        Returns None \<Rightarrow> Returns ()
      | Returns (Some err) \<Rightarrow> Fatal (''failed to connect to database: '' @ Error err)
      | Panic \<Rightarrow> Panic
      | Fatal msg \<Rightarrow> Fatal msg)"
  by (cases "NewBaseConnectionManager e cs dl cfg")
     (simp add: MustNewBaseConnectionManager_def split: outcome.splits option.splits)

section \<open>The claims\<close>

text \<open>
  C1. The claim: when the first open fails, every later \<open>GetConnection\<close> returns that same
  error, without opening again. The code keeps the error in a local of the call that ran the
  closure, so a later call returns a nil error. Evaluated after construction with a dialector
  whose open fails: the constructor returns the open failure, the next \<open>GetConnection\<close>
  returns no handle and no error, and the open was made once.
\<close>

theorem GetConnection_forgets_open_error:
  "snd (NewBaseConnectionManager env_fail ''dsn'' postgres None)
     = Returns (Some (Foreign ''dial tcp: connection refused'')) \<and>
   snd (GetConnection env_fail (fst (NewBaseConnectionManager env_fail ''dsn'' postgres None)))
     = Returns (None, None) \<and>
   length (open_calls (fst (GetConnection env_fail
     (fst (NewBaseConnectionManager env_fail ''dsn'' postgres None))))) = 1"
  by (simp add: ctor_defs env_fail_def postgres_def)

text \<open>
  C2. Over the life of a manager, which starts in the constructor, \<open>gorm.Open\<close> is called
  exactly once however many calls follow, and every \<open>GetConnection\<close> returns the one
  handle stored by that open: the constructor's own call and every later one.
\<close>

theorem open_exactly_once:
  "length (open_calls (run e (fst (NewBaseConnectionManager e cs dl cfg)) ops)) = 1 \<and>
   db (run e (fst (NewBaseConnectionManager e cs dl cfg)) ops)
     = db (fst (NewBaseConnectionManager e cs dl cfg)) \<and>
   (\<forall>i<length ops. ops ! i = OpGetConnection \<longrightarrow>
      outputs e (fst (NewBaseConnectionManager e cs dl cfg)) ops ! i
        = Returns (RConn (db (fst (NewBaseConnectionManager e cs dl cfg))) None)) \<and>
   (\<forall>h err. snd (GetConnection e (with_default_config (new_connMan cs dl cfg))) = Returns (h, err)
      \<longrightarrow> h = db (fst (NewBaseConnectionManager e cs dl cfg)))"
proof -
  let ?m = "fst (NewBaseConnectionManager e cs dl cfg)"
  have o: "once ?m" by (rule NewBase_once)
  have 1: "length (open_calls (run e ?m ops)) = 1"
    by (simp add: run_keeps[OF o] NewBase_open_calls)
  have 2: "db (run e ?m ops) = db ?m" by (simp add: run_keeps[OF o])
  have 3: "\<forall>i<length ops. ops ! i = OpGetConnection \<longrightarrow>
      outputs e ?m ops ! i = Returns (RConn (db ?m) None)"
    using o by (simp add: outputs_GetConnection)
  have 4: "\<forall>h err. snd (GetConnection e (with_default_config (new_connMan cs dl cfg))) = Returns (h, err)
      \<longrightarrow> h = db ?m"
    by (simp add: NewBase_state GetConnection_handle)
  from 1 2 3 4 show ?thesis by blast
qed

theorem open_exactly_once_witness:
  "length (open_calls (run env_ok (fst (NewBaseConnectionManager env_ok ''dsn'' postgres None))
      [OpGetConnection, OpAutoMigrate [Iface ''User'' 0], OpGetConnection])) = 1 \<and>
   outputs env_ok (fst (NewBaseConnectionManager env_ok ''dsn'' postgres None))
      [OpGetConnection, OpAutoMigrate [Iface ''User'' 0], OpGetConnection] ! 0
     = Returns (RConn (Some 1) None) \<and>
   outputs env_ok (fst (NewBaseConnectionManager env_ok ''dsn'' postgres None))
      [OpGetConnection, OpAutoMigrate [Iface ''User'' 0], OpGetConnection] ! 2
     = Returns (RConn (Some 1) None) \<and>
   snd (GetConnection env_ok (with_default_config (new_connMan ''dsn'' postgres None)))
     = Returns (Some 1, None)"
proof -
  let ?m = "fst (NewBaseConnectionManager env_ok ''dsn'' postgres None)"
  let ?ops = "[OpGetConnection, OpAutoMigrate [Iface ''User'' 0], OpGetConnection]"
  have h: "db ?m = Some 1" by (simp add: ctor_defs env_ok_def postgres_def)
  have g: "snd (GetConnection env_ok (with_default_config (new_connMan ''dsn'' postgres None)))
     = Returns (Some 1, None)"
    by (simp add: ctor_defs env_ok_def postgres_def)
  have 0: "(0::nat) < length ?ops \<and> ?ops ! 0 = OpGetConnection" by simp
  have 2: "(2::nat) < length ?ops \<and> ?ops ! 2 = OpGetConnection" by simp
  from open_exactly_once[where e=env_ok and cs="''dsn''" and dl=postgres and cfg=None and ops="?ops"]
  have "length (open_calls (run env_ok ?m ?ops)) = 1"
    and a: "\<forall>i<length ?ops. ?ops ! i = OpGetConnection \<longrightarrow>
      outputs env_ok ?m ?ops ! i = Returns (RConn (db ?m) None)"
    by blast+
  moreover from a 0 have "outputs env_ok ?m ?ops ! 0 = Returns (RConn (db ?m) None)" by blast
  moreover from a 2 have "outputs env_ok ?m ?ops ! 2 = Returns (RConn (db ?m) None)" by blast
  ultimately show ?thesis using h g by simp
qed

text \<open>
  C5. On a manager whose handle is unset, \<open>AutoMigrate\<close> returns \<open>ErrConnectionClosed\<close>
  and leaves the manager as it was: no batch reaches the migrator and \<open>migratedTables\<close>
  is unchanged. \<open>ErrConnectionClosed\<close> is no collaborator's error.
\<close>

theorem AutoMigrate_closed:
  "(db c = None \<longrightarrow>
      AutoMigrate e c tables = (c, Returns (Some ErrConnectionClosed)) \<and>
      sync_calls (fst (AutoMigrate e c tables)) = sync_calls c \<and>
      migratedTables (fst (AutoMigrate e c tables)) = migratedTables c) \<and>
   (\<forall>msg. ErrConnectionClosed \<noteq> Foreign msg)"
  by (simp add: AutoMigrate_def)

theorem AutoMigrate_closed_witness:
  "db (fst (NewBaseConnectionManager env_fail ''dsn'' postgres None)) = None \<and>
   snd (AutoMigrate env_fail (fst (NewBaseConnectionManager env_fail ''dsn'' postgres None))
      [Iface ''User'' 0]) = Returns (Some ErrConnectionClosed) \<and>
   sync_calls (fst (AutoMigrate env_fail (fst (NewBaseConnectionManager env_fail ''dsn'' postgres None))
      [Iface ''User'' 0])) = []"
proof -
  let ?m = "fst (NewBaseConnectionManager env_fail ''dsn'' postgres None)"
  have h: "db ?m = None" by (simp add: ctor_defs env_fail_def postgres_def)
  have s: "sync_calls ?m = []" by (simp add: ctor_defs env_fail_def postgres_def)
  from AutoMigrate_closed[of ?m env_fail "[Iface ''User'' 0]"] h s show ?thesis by simp
qed

text \<open>
  C7. Construction makes the first open: the trace of the constructed manager holds one
  \<open>gorm.Open\<close>. The standard constructor returns the error of that first \<open>GetConnection\<close>
  (the error of \<open>gorm.Open\<close>, or else of \<open>DB()\<close>, or nil). The fatal variant builds the
  same manager, exits through \<open>log.Fatalf\<close> when that error is not nil, and returns
  otherwise.
\<close>

theorem construction_opens_eagerly:
  "open_calls (fst (NewBaseConnectionManager e cs dl cfg))
     = [(dl, config (with_default_config (new_connMan cs dl cfg)))] \<and>
   map_outcome snd (snd (GetConnection e (with_default_config (new_connMan cs dl cfg))))
     = snd (NewBaseConnectionManager e cs dl cfg) \<and>
   fst (MustNewBaseConnectionManager e cs dl cfg) = fst (NewBaseConnectionManager e cs dl cfg) \<and>
   (gorm_Open e dl (config (with_default_config (new_connMan cs dl cfg))) = (h, Some msg, g) \<longrightarrow>
      snd (NewBaseConnectionManager e cs dl cfg) = Returns (Some (Foreign msg)) \<and>
      snd (MustNewBaseConnectionManager e cs dl cfg)
        = Fatal (''failed to connect to database: '' @ msg)) \<and>
   (gorm_Open e dl (config (with_default_config (new_connMan cs dl cfg))) = (Some d, None, g) \<and>
    DB_of e d = (q', Some msg) \<longrightarrow>
      snd (NewBaseConnectionManager e cs dl cfg) = Returns (Some (Foreign msg)) \<and>
      snd (MustNewBaseConnectionManager e cs dl cfg)
        = Fatal (''failed to connect to database: '' @ msg)) \<and>
   (gorm_Open e dl (config (with_default_config (new_connMan cs dl cfg))) = (Some d, None, g) \<and>
    DB_of e d = (Some q, None) \<longrightarrow>
      snd (NewBaseConnectionManager e cs dl cfg) = Returns None \<and>
      snd (MustNewBaseConnectionManager e cs dl cfg) = Returns ())"
proof -
  let ?c = "with_default_config (new_connMan cs dl cfg)"
  have dl: "dialector ?c = dl" by (simp add: fresh_not_once)
  have a: "gorm_Open e dl (config ?c) = (h, Some msg, g) \<longrightarrow>
      snd (NewBaseConnectionManager e cs dl cfg) = Returns (Some (Foreign msg)) \<and>
      snd (MustNewBaseConnectionManager e cs dl cfg)
        = Fatal (''failed to connect to database: '' @ msg)"
    using exec_open_error[of e ?c h msg g] dl by (simp add: snd_Must snd_NewBase_exec)
  have b: "gorm_Open e dl (config ?c) = (Some d, None, g) \<and> DB_of e d = (q', Some msg) \<longrightarrow>
      snd (NewBaseConnectionManager e cs dl cfg) = Returns (Some (Foreign msg)) \<and>
      snd (MustNewBaseConnectionManager e cs dl cfg)
        = Fatal (''failed to connect to database: '' @ msg)"
    using exec_DB_error[of e ?c d g q' msg] dl by (simp add: snd_Must snd_NewBase_exec)
  have c: "gorm_Open e dl (config ?c) = (Some d, None, g) \<and> DB_of e d = (Some q, None) \<longrightarrow>
      snd (NewBaseConnectionManager e cs dl cfg) = Returns None \<and>
      snd (MustNewBaseConnectionManager e cs dl cfg) = Returns ()"
    using exec_ok[of e ?c d g q] dl by (simp add: snd_Must snd_NewBase_exec)
  show ?thesis using a b c by (simp add: NewBase_open_calls snd_NewBase fst_Must)
qed

theorem construction_opens_eagerly_witness:
  "snd (NewBaseConnectionManager env_fail ''dsn'' postgres None)
     = Returns (Some (Foreign ''dial tcp: connection refused'')) \<and>
   snd (MustNewBaseConnectionManager env_fail ''dsn'' postgres None)
     = Fatal ''failed to connect to database: dial tcp: connection refused'' \<and>
   snd (NewBaseConnectionManager (env_ok\<lparr>DB_of := \<lambda>d. (None, Some ''sql: database is closed'')\<rparr>)
          ''dsn'' postgres None)
     = Returns (Some (Foreign ''sql: database is closed'')) \<and>
   snd (NewBaseConnectionManager env_ok ''dsn'' postgres None) = Returns None \<and>
   snd (MustNewBaseConnectionManager env_ok ''dsn'' postgres None) = Returns () \<and>
   length (open_calls (fst (MustNewBaseConnectionManager env_ok ''dsn'' postgres None))) = 1"
proof -
  let ?g = "Some \<lparr>cfg_Dialector = None, cfg_Logger = Some defaultLogger\<rparr>"
  let ?g' = "Some \<lparr>cfg_Dialector = postgres, cfg_Logger = Some defaultLogger\<rparr>"
  let ?e2 = "env_ok\<lparr>DB_of := \<lambda>d. (None, Some ''sql: database is closed'')\<rparr>"
  have c: "config (with_default_config (new_connMan ''dsn'' postgres None)) = ?g"
    by (simp add: with_default_config_def new_connMan_def)
  have 1: "gorm_Open env_fail postgres ?g = (None, Some ''dial tcp: connection refused'', ?g)"
    by (simp add: env_fail_def)
  have 2: "gorm_Open ?e2 postgres ?g = (Some 1, None, ?g') \<and>
           DB_of ?e2 1 = (None, Some ''sql: database is closed'')"
    by (simp add: env_ok_def postgres_def)
  have 3: "gorm_Open env_ok postgres ?g = (Some 1, None, ?g') \<and> DB_of env_ok 1 = (Some 7, None)"
    by (simp add: env_ok_def postgres_def)
  from construction_opens_eagerly[where e=env_fail and cs="''dsn''" and dl=postgres and cfg=None
         and h=None and msg="''dial tcp: connection refused''" and g="?g"]
       construction_opens_eagerly[where e="?e2" and cs="''dsn''" and dl=postgres and cfg=None
         and d=1 and g="?g'" and q'=None and msg="''sql: database is closed''"]
       construction_opens_eagerly[where e=env_ok and cs="''dsn''" and dl=postgres and cfg=None
         and d=1 and g="?g'" and q=7]
       c 1 2 3
  show ?thesis by simp
qed

text \<open>
  C8. Constructed without a configuration, the manager opens with the default one: a logger
  writing to standard output with a slow threshold of one second (\<open>10^9\<close> nanoseconds),
  level \<open>Error\<close> and colour on. A configuration that was supplied is the one handed to
  \<open>gorm.Open\<close>.
\<close>

theorem default_config:
  "open_calls (fst (NewBaseConnectionManager e cs dl None))
     = [(dl, Some \<lparr>cfg_Dialector = None, cfg_Logger = Some defaultLogger\<rparr>)] \<and>
   out (lg_writer defaultLogger) = os_Stdout \<and>
   SlowThreshold (lg_config defaultLogger) = time_Second \<and>
   time_Second = 1000 * 1000 * 1000 \<and>
   LogLevel (lg_config defaultLogger) = logger_Error \<and>
   Colorful (lg_config defaultLogger) \<and>
   open_calls (fst (NewBaseConnectionManager e cs dl (Some g))) = [(dl, Some g)] \<and>
   config (with_default_config (new_connMan cs dl (Some g))) = Some g"
  by (simp add: NewBase_open_calls with_default_config_def new_connMan_def defaultLogger_def
      time_Second_def)

text \<open>
  C9. When the one-time open succeeds (\<open>gorm.Open\<close> and \<open>DB()\<close> both without error),
  \<open>GetConnection\<close> sets the pool's maximum of idle connections to 10 and its maximum of open
  connections to \<open>-1\<close>, which \<open>database/sql\<close> reads as no limit. A call that does not
  run the open, or whose open does not succeed, makes no pool setting, and no later call on
  a constructed manager makes one.
\<close>

theorem pool_configured_on_success:
  "(\<not> once c \<and> gorm_Open e (dialector c) (config c) = (Some d, None, g) \<and>
      DB_of e d = (Some q, None) \<longrightarrow>
        snd (GetConnection e c) = Returns (Some d, None) \<and>
        pool_calls (fst (GetConnection e c))
          = pool_calls c @ [SetMaxIdleConns q 10, SetMaxOpenConns q (- 1)]) \<and>
   (once c \<or> (\<forall>h. snd (GetConnection e c) \<noteq> Returns (h, None)) \<longrightarrow>
        pool_calls (fst (GetConnection e c)) = pool_calls c) \<and>
   pool_calls (run e (fst (NewBaseConnectionManager e cs dl cfg)) ops)
     = pool_calls (fst (NewBaseConnectionManager e cs dl cfg)) \<and>
   no_limit (- 1)"
proof (intro conjI impI)
  assume a: "\<not> once c \<and> gorm_Open e (dialector c) (config c) = (Some d, None, g) \<and>
      DB_of e d = (Some q, None)"
  then have x: "execOnceOnlyFunc e c =
       (c\<lparr>db := Some d, config := g, open_calls := open_calls c @ [(dialector c, config c)],
          pool_calls := pool_calls c @ [SetMaxIdleConns q 10, SetMaxOpenConns q (- 1)]\<rparr>,
        Returns None)"
    by (simp add: exec_ok)
  from a x show "snd (GetConnection e c) = Returns (Some d, None)"
    by (simp add: GetConnection_def)
  from a x show "pool_calls (fst (GetConnection e c))
          = pool_calls c @ [SetMaxIdleConns q 10, SetMaxOpenConns q (- 1)]"
    by (simp add: GetConnection_def)
next
  assume a: "once c \<or> (\<forall>h. snd (GetConnection e c) \<noteq> Returns (h, None))"
  show "pool_calls (fst (GetConnection e c)) = pool_calls c"
  proof (cases "once c")
    case True
    then show ?thesis by (simp add: GetConnection_done)
  next
    case False
    with a have n: "\<forall>h. snd (GetConnection e c) \<noteq> Returns (h, None)" by simp
    have "snd (execOnceOnlyFunc e c) \<noteq> Returns None"
    proof
      assume "snd (execOnceOnlyFunc e c) = Returns None"
      with False have "snd (GetConnection e c) = Returns (db (fst (execOnceOnlyFunc e c)), None)"
        by (simp add: snd_GetConnection_fresh)
      with n show False by simp
    qed
    then have "pool_calls (fst (execOnceOnlyFunc e c)) = pool_calls c" by (rule exec_pool_only_ok)
    with False show ?thesis by (simp add: fst_GetConnection)
  qed
next
  show "pool_calls (run e (fst (NewBaseConnectionManager e cs dl cfg)) ops)
     = pool_calls (fst (NewBaseConnectionManager e cs dl cfg))"
    by (simp add: run_keeps NewBase_once)
next
  show "no_limit (- 1)" by (simp add: no_limit_def)
qed

theorem pool_configured_on_success_witness:
  "snd (GetConnection env_ok (with_default_config (new_connMan ''dsn'' postgres None)))
     = Returns (Some 1, None) \<and>
   pool_calls (fst (GetConnection env_ok (with_default_config (new_connMan ''dsn'' postgres None))))
     = [SetMaxIdleConns 7 10, SetMaxOpenConns 7 (- 1)] \<and>
   pool_calls (fst (GetConnection env_fail (with_default_config (new_connMan ''dsn'' postgres None))))
     = []"
proof -
  let ?c = "with_default_config (new_connMan ''dsn'' postgres None)"
  have 1: "\<not> once ?c \<and> gorm_Open env_ok (dialector ?c) (config ?c)
      = (Some 1, None, Some \<lparr>cfg_Dialector = postgres, cfg_Logger = Some defaultLogger\<rparr>) \<and>
      DB_of env_ok 1 = (Some 7, None)"
    by (simp add: with_default_config_def new_connMan_def env_ok_def postgres_def)
  have 2: "once ?c \<or> (\<forall>h. snd (GetConnection env_fail ?c) \<noteq> Returns (h, None))"
    by (simp add: ctor_defs env_fail_def postgres_def)
  have 3: "pool_calls ?c = []" by (simp add: with_default_config_def new_connMan_def)
  from pool_configured_on_success[where c="?c" and e=env_ok and d=1 and q=7
         and g="Some \<lparr>cfg_Dialector = postgres, cfg_Logger = Some defaultLogger\<rparr>"] 1
       pool_configured_on_success[where c="?c" and e=env_fail] 2 3
  show ?thesis by simp
qed

text \<open>
  C10. On a manager with a handle, \<open>AutoMigrate\<close> and \<open>AutoMigrateOrWarn\<close> panic when a
  nil value is among the tables: \<open>reflect.ValueOf(nil).Type()\<close> is reached with no check
  before it, and the migrator is not called.
\<close>

theorem AutoMigrate_nil_panics:
  "db c \<noteq> None \<and> NilIface \<in> set tables \<longrightarrow>
     snd (AutoMigrate e c tables) = Panic \<and>
     snd (AutoMigrateOrWarn e c tables) = Panic \<and>
     sync_calls (fst (AutoMigrate e c tables)) = sync_calls c"
proof (intro impI, elim conjE)
  assume d: "db c \<noteq> None" and n: "NilIface \<in> set tables"
  obtain c1 r where cr: "migrate_loop c [] tables = (c1, r)" by (cases "migrate_loop c [] tables")
  from migrate_loop_nil[OF n, of c "[]"] cr have r: "r = Panic" by simp
  obtain M where "fst (migrate_loop c [] tables) = c\<lparr>migratedTables := M\<rparr>"
    by (rule migrate_loop_shape)
  with cr have c1: "sync_calls c1 = sync_calls c" by simp
  from d obtain h where h: "db c = Some h" by blast
  have a: "AutoMigrate e c tables = (c1, Panic)"
    using h cr r by (simp add: AutoMigrate_def)
  then show "snd (AutoMigrate e c tables) = Panic \<and>
     snd (AutoMigrateOrWarn e c tables) = Panic \<and>
     sync_calls (fst (AutoMigrate e c tables)) = sync_calls c"
    using c1 by (simp add: AutoMigrateOrWarn_def)
qed

theorem AutoMigrate_nil_panics_witness:
  "db (fst (NewBaseConnectionManager env_ok ''dsn'' postgres None)) = Some 1 \<and>
   snd (AutoMigrate env_ok (fst (NewBaseConnectionManager env_ok ''dsn'' postgres None))
      [Iface ''User'' 0, NilIface]) = Panic \<and>
   snd (AutoMigrateOrWarn env_ok (fst (NewBaseConnectionManager env_ok ''dsn'' postgres None))
      [Iface ''User'' 0, NilIface]) = Panic"
proof -
  let ?m = "fst (NewBaseConnectionManager env_ok ''dsn'' postgres None)"
  have h: "db ?m = Some 1" by (simp add: ctor_defs env_ok_def postgres_def)
  from AutoMigrate_nil_panics[of ?m "[Iface ''User'' 0, NilIface]" env_ok] h show ?thesis by simp
qed

end
